theory Spec2Isabelle
  imports Main "HOL-Library.Word" "HOL-Library.Multiset"
begin

section \<open>Strings of the host language\<close>

text \<open>
  A JavaScript string is a sequence of UTF-16 code units. The labels and messages of the
  screen are Japanese, so they are written below as lists of code units.
\<close>

type_synonym jsstring = "16 word list"

text \<open>
  \<^verbatim>\<open>String.prototype.split(sep)\<close> for a separator of one code unit: the pieces between
  the occurrences of the separator, in order. The empty string gives one empty piece.
  A split is never empty, so the first branch of the inner case is never taken.
\<close>

fun split :: "16 word \<Rightarrow> jsstring \<Rightarrow> jsstring list" where
  "split sep [] = [[]]"
| "split sep (c # cs) =
     (if c = sep then [] # split sep cs
      else (case split sep cs of
              [] \<Rightarrow> [[c]]
            | p # ps \<Rightarrow> (c # p) # ps))"

text \<open>
  The code units that \<^verbatim>\<open>String.prototype.trim\<close> strips: the WhiteSpace and
  LineTerminator productions of ECMAScript (TAB, VT, FF, SP, NBSP, ZWNBSP, the
  space separators of Unicode, LF, CR, LS, PS). All of them lie in the basic plane.
\<close>

definition isWhiteSpace :: "16 word \<Rightarrow> bool" where
  "isWhiteSpace c \<longleftrightarrow>
     c = 0x0009 \<or> c = 0x000A \<or> c = 0x000B \<or> c = 0x000C \<or> c = 0x000D \<or> c = 0x0020 \<or>
     c = 0x00A0 \<or> c = 0x1680 \<or> (0x2000 \<le> c \<and> c \<le> 0x200A) \<or> c = 0x2028 \<or> c = 0x2029 \<or>
     c = 0x202F \<or> c = 0x205F \<or> c = 0x3000 \<or> c = 0xFEFF"

definition trim :: "jsstring \<Rightarrow> jsstring" where
  "trim s = rev (dropWhile isWhiteSpace (rev (dropWhile isWhiteSpace s)))"

text \<open>
  \<^verbatim>\<open>String.prototype.toLowerCase\<close> is a function of the platform: the Unicode case
  mapping that it applies is no part of the program. It is a parameter of the model,
  called \<open>toLowerCase\<close> in the definitions and \<open>lc\<close> in the theorems. The theorems hold
  for every function in its place, and a theorem that needs a property of lower-casing
  states it as a hypothesis.
\<close>

text \<open>
  \<^verbatim>\<open>String.prototype.includes\<close>: the search string is looked for at every position of
  the receiver, from the left.
\<close>

fun startsWith :: "jsstring \<Rightarrow> jsstring \<Rightarrow> bool" where
  "startsWith s [] = True"
| "startsWith [] (d # ds) = False"
| "startsWith (c # cs) (d # ds) = (c = d \<and> startsWith cs ds)"

fun includesString :: "jsstring \<Rightarrow> jsstring \<Rightarrow> bool" where
  "includesString [] t = startsWith [] t"
| "includesString (c # cs) t = (startsWith (c # cs) t \<or> includesString cs t)"

section \<open>Data model\<close>

text \<open>The interface \<^verbatim>\<open>Recipe\<close> of the store client.\<close>

record Recipe =
  recipe_id :: jsstring
  name :: jsstring
  genre :: jsstring
  category :: jsstring
  ingredients :: "jsstring list"
  steps :: jsstring
  created_at :: jsstring

text \<open>The type \<^verbatim>\<open>Genre\<close>: the string literals for Japanese, Western and Chinese cuisine.\<close>

datatype Genre = Washoku | Yoshoku | Chuka

text \<open>The interface \<^verbatim>\<open>MealPlan\<close>; \<open>None\<close> is \<^verbatim>\<open>null\<close>.\<close>

record MealPlan =
  mainDish :: "Recipe option"
  sideDish :: "Recipe option"
  soup :: "Recipe option"

text \<open>The category labels that \<^verbatim>\<open>suggestMeal\<close> passes to \<^verbatim>\<open>findBestMatch\<close>.\<close>

definition label_mainDish :: jsstring where
  "label_mainDish = [0x4E3B, 0x83DC]"

definition label_sideDish :: jsstring where
  "label_sideDish = [0x526F, 0x83DC]"

definition label_soup :: jsstring where
  "label_soup = [0x6C41, 0x7269]"

section \<open>Normalising the ingredient text\<close>

text \<open>
  The first statement of \<^verbatim>\<open>suggestMeal\<close>:
  \<^verbatim>\<open>ingredients.split(',').map((i) => i.trim().toLowerCase()).filter((i) => i.length > 0)\<close>.
\<close>

definition normalize_ingredients :: "(jsstring \<Rightarrow> jsstring) \<Rightarrow> jsstring \<Rightarrow> jsstring list" where
  "normalize_ingredients toLowerCase raw =
     filter (\<lambda>i. length i > 0) (map (\<lambda>i. toLowerCase (trim i)) (split 0x002C raw))"

section \<open>Scoring and selection\<close>

text \<open>
  The body of the \<^verbatim>\<open>map\<close> callback in \<^verbatim>\<open>findBestMatch\<close>: the number of ingredient
  entries of the recipe that, lower-cased, include some token of the user.
\<close>

definition matchCount :: "(jsstring \<Rightarrow> jsstring) \<Rightarrow> jsstring list \<Rightarrow> Recipe \<Rightarrow> nat" where
  "matchCount toLowerCase ingredientList recipe =
     length (filter (\<lambda>ing. list_ex (\<lambda>userIng. includesString (toLowerCase ing) userIng) ingredientList)
               (ingredients recipe))"

record Scored =
  recipe :: Recipe
  score :: nat

text \<open>
  \<^verbatim>\<open>Array.prototype.sort(compareFn)\<close>. ECMAScript requires the sort to be stable, and
  a stable sort under a consistent comparator has one result only, so the model is the
  stable insertion sort: an element goes in front of the first later element that the
  comparator does not put before it.
\<close>

fun insertBy :: "('a \<Rightarrow> 'a \<Rightarrow> int) \<Rightarrow> 'a \<Rightarrow> 'a list \<Rightarrow> 'a list" where
  "insertBy compareFn x [] = [x]"
| "insertBy compareFn x (y # ys) =
     (if compareFn x y \<le> 0 then x # y # ys else y # insertBy compareFn x ys)"

definition sortBy :: "('a \<Rightarrow> 'a \<Rightarrow> int) \<Rightarrow> 'a list \<Rightarrow> 'a list" where
  "sortBy compareFn xs = foldr (insertBy compareFn) xs []"

text \<open>
  The closure \<^verbatim>\<open>findBestMatch\<close>, with the variables it captures, and the lower-casing
  of the platform, as arguments.
\<close>

definition findBestMatch ::
  "(jsstring \<Rightarrow> jsstring) \<Rightarrow> Recipe list \<Rightarrow> jsstring list \<Rightarrow> jsstring \<Rightarrow> Recipe option" where
  "findBestMatch toLowerCase recipes ingredientList cat =
     (let categoryRecipes = filter (\<lambda>r. category r = cat) recipes;
          scored = map (\<lambda>r. \<lparr>recipe = r, score = matchCount toLowerCase ingredientList r\<rparr>)
                     categoryRecipes;
          sorted = sortBy (\<lambda>a b. int (score b) - int (score a)) scored
      in (case sorted of [] \<Rightarrow> None | s # _ \<Rightarrow> Some (recipe s)))"

text \<open>The plan that \<^verbatim>\<open>suggestMeal\<close> hands to \<^verbatim>\<open>setMealPlan\<close>.\<close>

definition selectMealPlan ::
  "(jsstring \<Rightarrow> jsstring) \<Rightarrow> Recipe list \<Rightarrow> jsstring list \<Rightarrow> MealPlan" where
  "selectMealPlan toLowerCase recipes ingredientList =
     \<lparr>mainDish = findBestMatch toLowerCase recipes ingredientList label_mainDish,
      sideDish = findBestMatch toLowerCase recipes ingredientList label_sideDish,
      soup = findBestMatch toLowerCase recipes ingredientList label_soup\<rparr>"

section \<open>The request\<close>

text \<open>
  What the store answers to \<^verbatim>\<open>from('recipes').select('*').eq('genre', selectedGenre)\<close>:
  the rows, or \<^verbatim>\<open>null\<close>, and an error, or \<^verbatim>\<open>null\<close>.
\<close>

datatype PostgrestError = PostgrestError jsstring

record Response =
  data :: "Recipe list option"
  fetchError :: "PostgrestError option"

text \<open>
  The state of the screen that \<^verbatim>\<open>suggestMeal\<close> writes, together with the two effects
  it has on the outside: the queries sent to the store and the errors written to the
  console, each in order.
\<close>

record Screen =
  loading :: bool
  mealPlan :: "MealPlan option"
  error :: jsstring
  queries :: "Genre list"
  console :: "PostgrestError list"

definition msg_enter_ingredients :: jsstring where
  "msg_enter_ingredients =
     [0x98DF, 0x6750, 0x3092, 0x5165, 0x529B, 0x3057, 0x3066, 0x304F, 0x3060, 0x3055, 0x3044]"

definition msg_no_recipes :: jsstring where
  "msg_no_recipes =
     [0x8A72, 0x5F53, 0x3059, 0x308B, 0x30EC, 0x30B7, 0x30D4, 0x304C, 0x898B, 0x3064, 0x304B,
      0x308A, 0x307E, 0x305B, 0x3093, 0x3067, 0x3057, 0x305F]"

definition msg_failed :: jsstring where
  "msg_failed = [0x30A8, 0x30E9, 0x30FC, 0x304C, 0x767A, 0x751F, 0x3057, 0x307E, 0x3057, 0x305F]"

text \<open>
  \<^verbatim>\<open>suggestMeal\<close>, with the lower-casing of the platform and the store, a function from
  the genre asked for to its answer, as arguments.
  Every path ends with \<^verbatim>\<open>setLoading(false)\<close>, by an early return or by the
  \<^verbatim>\<open>finally\<close> block.
\<close>

definition suggestMeal ::
  "(jsstring \<Rightarrow> jsstring) \<Rightarrow> (Genre \<Rightarrow> Response) \<Rightarrow> jsstring \<Rightarrow> Genre \<Rightarrow> Screen \<Rightarrow> Screen" where
  "suggestMeal toLowerCase store ingredientsText selectedGenre s0 =
     (let s1 = s0\<lparr>loading := True, error := [], mealPlan := None\<rparr>;
          ingredientList = normalize_ingredients toLowerCase ingredientsText
      in if length ingredientList = 0
         then s1\<lparr>error := msg_enter_ingredients, loading := False\<rparr>
         else
           (let s2 = s1\<lparr>queries := queries s1 @ [selectedGenre]\<rparr>;
                response = store selectedGenre
            in (case fetchError response of
                  Some e \<Rightarrow> s2\<lparr>error := msg_failed, console := console s2 @ [e], loading := False\<rparr>
                | None \<Rightarrow>
                    (case data response of
                       None \<Rightarrow> s2\<lparr>error := msg_no_recipes, loading := False\<rparr>
                     | Some recipes \<Rightarrow>
                         if length recipes = 0
                         then s2\<lparr>error := msg_no_recipes, loading := False\<rparr>
                         else s2\<lparr>mealPlan := Some (selectMealPlan toLowerCase recipes ingredientList),
                                 loading := False\<rparr>))))"

section \<open>Sample data\<close>

text \<open>
  The strings of the sample data consist of Basic Latin letters and digits, spaces,
  commas, kana and kanji. On such strings lower-casing turns the letters A to Z into a to z and keeps
  every other code unit; \<open>lowerBasicLatin\<close> does that, and it takes the place of the
  parameter wherever a sample is evaluated.

  The raw text of the normalisation example of the specification, a blank request, and
  the pool and the query of its end-to-end scenario (two main dishes, pork with onion and
  chicken with potato, asked for with pork and potato), with a soup, a dessert and a
  soup whose ingredients, Onion and BUTTER, are written with capitals added;
  a store that answers with given rows, one that answers \<^verbatim>\<open>null\<close>, and the screen
  before a request.
\<close>

definition lowerBasicLatin :: "jsstring \<Rightarrow> jsstring" where
  "lowerBasicLatin s = map (\<lambda>c. if 0x0041 \<le> c \<and> c \<le> 0x005A then c + 0x0020 else c) s"

definition sample_raw :: jsstring where
  "sample_raw =
     [0x0020, 0x8C5A, 0x8089, 0x0020, 0x002C, 0x0020, 0x002C, 0x004F, 0x004E, 0x0049, 0x004F,
      0x004E, 0x0020]"

definition blank_raw :: jsstring where
  "blank_raw = [0x0020, 0x002C, 0x0020]"

definition pork_onion :: Recipe where
  "pork_onion =
     \<lparr>recipe_id = [0x0031], name = [0x751F, 0x59DC, 0x713C, 0x304D], genre = [0x548C, 0x98DF],
      category = [0x4E3B, 0x83DC],
      ingredients = [[0x8C5A, 0x8089], [0x7389, 0x306D, 0x304E]],
      steps = [], created_at = []\<rparr>"

definition chicken_potato :: Recipe where
  "chicken_potato =
     \<lparr>recipe_id = [0x0032], name = [0x8089, 0x3058, 0x3083, 0x304C], genre = [0x548C, 0x98DF],
      category = [0x4E3B, 0x83DC],
      ingredients = [[0x9D8F, 0x8089], [0x3058, 0x3083, 0x304C, 0x3044, 0x3082]],
      steps = [], created_at = []\<rparr>"

definition miso_soup :: Recipe where
  "miso_soup =
     \<lparr>recipe_id = [0x0033], name = [0x5473, 0x564C, 0x6C41], genre = [0x548C, 0x98DF],
      category = [0x6C41, 0x7269],
      ingredients = [[0x5473, 0x564C], [0x8C46, 0x8150]],
      steps = [], created_at = []\<rparr>"

definition pudding :: Recipe where
  "pudding =
     \<lparr>recipe_id = [0x0034], name = [0x30D7, 0x30EA, 0x30F3], genre = [0x548C, 0x98DF],
      category = [0x30C7, 0x30B6, 0x30FC, 0x30C8],
      ingredients = [[0x5375], [0x725B, 0x4E73]],
      steps = [], created_at = []\<rparr>"

definition onion_gratin :: Recipe where
  "onion_gratin =
     \<lparr>recipe_id = [0x0035], name = [0x0047, 0x0072, 0x0061, 0x0074, 0x0069, 0x006E],
      genre = [0x6D0B, 0x98DF], category = [0x6C41, 0x7269],
      ingredients = [[0x004F, 0x006E, 0x0069, 0x006F, 0x006E],
                     [0x0042, 0x0055, 0x0054, 0x0054, 0x0045, 0x0052]],
      steps = [], created_at = []\<rparr>"

definition pork_potato :: "jsstring list" where
  "pork_potato = [[0x8C5A, 0x8089], [0x3058, 0x3083, 0x304C, 0x3044, 0x3082]]"

definition pig_pork :: "jsstring list" where
  "pig_pork = [[0x8C5A], [0x8C5A, 0x8089]]"

definition answer :: "Recipe list \<Rightarrow> Genre \<Rightarrow> Response" where
  "answer rows g = \<lparr>data = Some rows, fetchError = None\<rparr>"

definition no_rows :: "Genre \<Rightarrow> Response" where
  "no_rows g = \<lparr>data = None, fetchError = None\<rparr>"

definition idle :: Screen where
  "idle = \<lparr>loading = False, mealPlan = None, error = [], queries = [], console = []\<rparr>"

lemmas sample_defs =
  sample_raw_def blank_raw_def pork_onion_def chicken_potato_def miso_soup_def pudding_def
  onion_gratin_def
  pork_potato_def pig_pork_def idle_def label_mainDish_def label_sideDish_def label_soup_def

lemmas string_defs =
  normalize_ingredients_def trim_def lowerBasicLatin_def isWhiteSpace_def

lemmas matcher_defs =
  selectMealPlan_def findBestMatch_def sortBy_def matchCount_def lowerBasicLatin_def

section \<open>Searching a string\<close>

lemma startsWith_iff: "startsWith s t \<longleftrightarrow> (\<exists>suf. s = t @ suf)"
  by (induction s t rule: startsWith.induct) auto

lemma includesString_iff: "includesString s t \<longleftrightarrow> (\<exists>pre suf. s = pre @ t @ suf)"
proof (induction s)
  case Nil
  show ?case by (simp add: startsWith_iff)
next
  case (Cons c cs)
  show ?case
  proof
    assume "includesString (c # cs) t"
    then consider "startsWith (c # cs) t" | "includesString cs t" by auto
    then show "\<exists>pre suf. c # cs = pre @ t @ suf"
    proof cases
      case 1
      then obtain suf where "c # cs = t @ suf" by (auto simp: startsWith_iff)
      then have "c # cs = [] @ t @ suf" by simp
      then show ?thesis by blast
    next
      case 2
      then obtain pre suf where "cs = pre @ t @ suf" using Cons.IH by blast
      then have "c # cs = (c # pre) @ t @ suf" by simp
      then show ?thesis by blast
    qed
  next
    assume "\<exists>pre suf. c # cs = pre @ t @ suf"
    then obtain pre suf where eq: "c # cs = pre @ t @ suf" by blast
    show "includesString (c # cs) t"
    proof (cases pre)
      case Nil
      with eq have "startsWith (c # cs) t" by (auto simp: startsWith_iff)
      then show ?thesis by simp
    next
      case (Cons d pre')
      with eq have "cs = pre' @ t @ suf" by simp
      then have "includesString cs t" using Cons.IH by blast
      then show ?thesis by simp
    qed
  qed
qed

section \<open>Normalisation\<close>

text \<open>
  The pieces of a split, joined again with the separator between them, give the string
  back, and no piece contains the separator.
\<close>

lemma split_not_Nil: "split sep s \<noteq> []"
  by (induction s) (auto split: list.splits)

lemma split_join:
  "foldr (\<lambda>p acc. p @ sep # acc) (butlast (split sep s)) (last (split sep s)) = s"
proof (induction s)
  case Nil
  show ?case by simp
next
  case (Cons c cs)
  obtain q qs where e: "split sep cs = q # qs"
    using split_not_Nil[of sep cs] by (cases "split sep cs") auto
  show ?case
  proof (cases "c = sep")
    case True
    with Cons e show ?thesis by simp
  next
    case False
    with Cons e show ?thesis by (cases qs) auto
  qed
qed

lemma split_no_sep: "p \<in> set (split sep s) \<Longrightarrow> sep \<notin> set p"
proof (induction s arbitrary: p)
  case Nil
  then show ?case by simp
next
  case (Cons c cs)
  obtain q qs where e: "split sep cs = q # qs"
    using split_not_Nil[of sep cs] by (cases "split sep cs") auto
  show ?case
  proof (cases "c = sep")
    case True
    with Cons.prems have "p = [] \<or> p \<in> set (split sep cs)" by simp
    with Cons.IH show ?thesis by auto
  next
    case False
    with Cons.prems e have "p = c # q \<or> p \<in> set qs" by simp
    moreover have "sep \<notin> set q" using Cons.IH[of q] e by simp
    moreover have "p \<in> set qs \<Longrightarrow> sep \<notin> set p" using Cons.IH[of p] e by simp
    ultimately show ?thesis using False by auto
  qed
qed

text \<open>
  Trimming removes a run of white space at each end and nothing else, and what is left
  neither starts nor ends with white space.
\<close>

lemma rev_dropWhile_takeWhile:
  "xs = rev (dropWhile P (rev xs)) @ rev (takeWhile P (rev xs))"
proof -
  have "rev xs = takeWhile P (rev xs) @ dropWhile P (rev xs)" by simp
  then have "rev (rev xs) = rev (takeWhile P (rev xs) @ dropWhile P (rev xs))" by (rule arg_cong)
  then show ?thesis by (simp only: rev_rev_ident rev_append)
qed

lemma trim_middle:
  "dropWhile isWhiteSpace s =
     trim s @ rev (takeWhile isWhiteSpace (rev (dropWhile isWhiteSpace s)))"
  unfolding trim_def by (rule rev_dropWhile_takeWhile)

lemma trim_decomp:
  "\<exists>l r. s = l @ trim s @ r \<and> (\<forall>c \<in> set l. isWhiteSpace c) \<and> (\<forall>c \<in> set r. isWhiteSpace c)"
proof -
  let ?l = "takeWhile isWhiteSpace s"
  let ?r = "rev (takeWhile isWhiteSpace (rev (dropWhile isWhiteSpace s)))"
  have "s = ?l @ dropWhile isWhiteSpace s" by simp
  also have "dropWhile isWhiteSpace s = trim s @ ?r" by (rule trim_middle)
  finally have "s = ?l @ trim s @ ?r" .
  moreover have "\<forall>c \<in> set ?l. isWhiteSpace c" by (auto dest: set_takeWhileD)
  moreover have "\<forall>c \<in> set ?r. isWhiteSpace c" by (auto dest: set_takeWhileD)
  ultimately show ?thesis by blast
qed

lemma trim_hd:
  assumes ne: "trim s \<noteq> []"
  shows "\<not> isWhiteSpace (hd (trim s))"
proof -
  let ?m = "dropWhile isWhiteSpace s"
  have m: "?m = trim s @ rev (takeWhile isWhiteSpace (rev ?m))" by (rule trim_middle)
  have "?m \<noteq> []"
  proof
    assume e: "?m = []"
    have "trim s = []" unfolding trim_def e by simp
    with ne show False by simp
  qed
  then have "\<not> isWhiteSpace (hd ?m)" by (rule hd_dropWhile)
  moreover have "hd ?m = hd (trim s)" using ne by (subst m) simp
  ultimately show ?thesis by simp
qed

lemma trim_last:
  assumes ne: "trim s \<noteq> []"
  shows "\<not> isWhiteSpace (last (trim s))"
proof -
  let ?d = "dropWhile isWhiteSpace (rev (dropWhile isWhiteSpace s))"
  from ne have d: "?d \<noteq> []" by (simp add: trim_def)
  then have "\<not> isWhiteSpace (hd ?d)" by (rule hd_dropWhile)
  moreover have "last (trim s) = hd ?d" using d by (simp add: trim_def last_rev)
  ultimately show ?thesis by simp
qed

text \<open>
  The tokens are the lower-cased trimmed pieces that are not empty. When lower-casing
  maps the empty string, and no other, to the empty string, they are the lower-cased
  forms of the pieces that are not empty once trimmed.
\<close>

lemma set_normalize_ingredients:
  "set (normalize_ingredients lc raw) =
     {lc (trim p) | p. p \<in> set (split 0x002C raw) \<and> lc (trim p) \<noteq> []}"
  by (auto simp: normalize_ingredients_def)

lemma normalize_ingredients_eq:
  assumes "\<forall>s. (lc s = []) = (s = [])"
  shows "normalize_ingredients lc raw =
     map lc (filter (\<lambda>p. p \<noteq> []) (map trim (split 0x002C raw)))"
  using assms by (simp add: normalize_ingredients_def filter_map o_def)

text \<open>The two sample texts, split, trimmed and normalised.\<close>

lemma sample_split:
  "split 0x002C sample_raw =
     [[0x0020, 0x8C5A, 0x8089, 0x0020], [0x0020], [0x004F, 0x004E, 0x0049, 0x004F, 0x004E, 0x0020]]"
  by (simp add: sample_raw_def)

lemma sample_trim:
  "map trim (split 0x002C sample_raw) =
     [[0x8C5A, 0x8089], [], [0x004F, 0x004E, 0x0049, 0x004F, 0x004E]]"
  unfolding sample_split by (simp add: trim_def isWhiteSpace_def)

lemma sample_lower:
  "\<forall>s. (lowerBasicLatin s = []) = (s = [])"
  "lowerBasicLatin [] = []"
  "lowerBasicLatin [0x8C5A, 0x8089] = [0x8C5A, 0x8089]"
  "lowerBasicLatin [0x004F, 0x004E, 0x0049, 0x004F, 0x004E] =
     [0x006F, 0x006E, 0x0069, 0x006F, 0x006E]"
  by (simp_all add: lowerBasicLatin_def)

lemma sample_normalize:
  "normalize_ingredients lowerBasicLatin sample_raw =
     [[0x8C5A, 0x8089], [0x006F, 0x006E, 0x0069, 0x006F, 0x006E]]"
  "normalize_ingredients lowerBasicLatin blank_raw = []"
  by (simp_all add: string_defs sample_defs)

lemma normalize_sample_raw:
  assumes "lc [] = []" "lc [0x8C5A, 0x8089] = [0x8C5A, 0x8089]"
    "lc [0x004F, 0x004E, 0x0049, 0x004F, 0x004E] = [0x006F, 0x006E, 0x0069, 0x006F, 0x006E]"
  shows "normalize_ingredients lc sample_raw =
     [[0x8C5A, 0x8089], [0x006F, 0x006E, 0x0069, 0x006F, 0x006E]]"
proof -
  have "normalize_ingredients lc sample_raw =
          filter (\<lambda>i. length i > 0) (map lc (map trim (split 0x002C sample_raw)))"
    by (simp add: normalize_ingredients_def o_def)
  also have "\<dots> = [[0x8C5A, 0x8089], [0x006F, 0x006E, 0x0069, 0x006F, 0x006E]]"
    unfolding sample_trim by (simp add: assms)
  finally show ?thesis .
qed

text \<open>
  C5. The token list is what the specification describes. The text is split at the
  commas: the pieces, joined again with commas, are the text, and no piece contains a
  comma. Every piece is trimmed: white space is stripped from both its ends and nothing
  else. The pieces are lower-cased, and the empty ones are dropped, so that every token
  is a non-empty lower-cased trimmed piece; since lower-casing maps the empty string, and
  no other, to the empty string, the pieces dropped are those that are empty once
  trimmed. The example text of the specification gives the tokens pork and onion, the
  lower-case forms of the kanji word and of ONION being the word itself and onion.
\<close>

theorem normalize_ingredients_splits_trims_lowers:
  "((\<forall>s. (lc s = []) = (s = [])) \<longrightarrow>
      normalize_ingredients lc raw =
        map lc (filter (\<lambda>p. p \<noteq> []) (map trim (split 0x002C raw)))) \<and>
   foldr (\<lambda>p acc. p @ 0x002C # acc) (butlast (split 0x002C raw)) (last (split 0x002C raw)) = raw \<and>
   (\<forall>p \<in> set (split 0x002C raw).
      0x002C \<notin> set p \<and>
      (\<exists>l r. p = l @ trim p @ r \<and> (\<forall>c \<in> set l. isWhiteSpace c) \<and> (\<forall>c \<in> set r. isWhiteSpace c)) \<and>
      (trim p \<noteq> [] \<longrightarrow> \<not> isWhiteSpace (hd (trim p)) \<and> \<not> isWhiteSpace (last (trim p)))) \<and>
   (\<forall>t \<in> set (normalize_ingredients lc raw).
      t \<noteq> [] \<and> (\<exists>p \<in> set (split 0x002C raw). t = lc (trim p))) \<and>
   (lc [] = [] \<and> lc [0x8C5A, 0x8089] = [0x8C5A, 0x8089] \<and>
    lc [0x004F, 0x004E, 0x0049, 0x004F, 0x004E] = [0x006F, 0x006E, 0x0069, 0x006F, 0x006E] \<longrightarrow>
      normalize_ingredients lc sample_raw =
        [[0x8C5A, 0x8089], [0x006F, 0x006E, 0x0069, 0x006F, 0x006E]] \<and>
      set (normalize_ingredients lc sample_raw) =
        {[0x8C5A, 0x8089], [0x006F, 0x006E, 0x0069, 0x006F, 0x006E]})"
proof (intro conjI ballI impI)
  assume "\<forall>s. (lc s = []) = (s = [])"
  then show "normalize_ingredients lc raw =
     map lc (filter (\<lambda>p. p \<noteq> []) (map trim (split 0x002C raw)))"
    by (rule normalize_ingredients_eq)
next
  show "foldr (\<lambda>p acc. p @ 0x002C # acc) (butlast (split 0x002C raw)) (last (split 0x002C raw)) = raw"
    by (rule split_join)
next
  fix p assume "p \<in> set (split 0x002C raw)"
  then show "0x002C \<notin> set p" by (rule split_no_sep)
next
  fix p
  show "\<exists>l r. p = l @ trim p @ r \<and> (\<forall>c \<in> set l. isWhiteSpace c) \<and> (\<forall>c \<in> set r. isWhiteSpace c)"
    by (rule trim_decomp)
next
  fix p assume "trim p \<noteq> []"
  then show "\<not> isWhiteSpace (hd (trim p))" by (rule trim_hd)
next
  fix p assume "trim p \<noteq> []"
  then show "\<not> isWhiteSpace (last (trim p))" by (rule trim_last)
next
  fix t assume t: "t \<in> set (normalize_ingredients lc raw)"
  then show "t \<noteq> []" by (simp add: normalize_ingredients_def)
  from t show "\<exists>p \<in> set (split 0x002C raw). t = lc (trim p)"
    unfolding set_normalize_ingredients by blast
next
  assume a: "lc [] = [] \<and> lc [0x8C5A, 0x8089] = [0x8C5A, 0x8089] \<and>
    lc [0x004F, 0x004E, 0x0049, 0x004F, 0x004E] = [0x006F, 0x006E, 0x0069, 0x006F, 0x006E]"
  then have n: "normalize_ingredients lc sample_raw =
        [[0x8C5A, 0x8089], [0x006F, 0x006E, 0x0069, 0x006F, 0x006E]]"
    by (intro normalize_sample_raw) (elim conjE, assumption)+
  then show "normalize_ingredients lc sample_raw =
        [[0x8C5A, 0x8089], [0x006F, 0x006E, 0x0069, 0x006F, 0x006E]]" .
  from n show "set (normalize_ingredients lc sample_raw) =
        {[0x8C5A, 0x8089], [0x006F, 0x006E, 0x0069, 0x006F, 0x006E]}"
    by simp
qed

text \<open>
  The example text of the specification, step by step: three pieces, the second blank;
  trimmed, the second is empty; what is left, lower-cased, is pork and onion.
\<close>

theorem normalize_ingredients_splits_trims_lowers_witness:
  "(\<forall>s. (lowerBasicLatin s = []) = (s = [])) \<and>
   lowerBasicLatin [] = [] \<and> lowerBasicLatin [0x8C5A, 0x8089] = [0x8C5A, 0x8089] \<and>
   lowerBasicLatin [0x004F, 0x004E, 0x0049, 0x004F, 0x004E] =
     [0x006F, 0x006E, 0x0069, 0x006F, 0x006E] \<and>
   split 0x002C sample_raw =
     [[0x0020, 0x8C5A, 0x8089, 0x0020], [0x0020], [0x004F, 0x004E, 0x0049, 0x004F, 0x004E, 0x0020]] \<and>
   map trim (split 0x002C sample_raw) =
     [[0x8C5A, 0x8089], [], [0x004F, 0x004E, 0x0049, 0x004F, 0x004E]] \<and>
   map lowerBasicLatin (filter (\<lambda>p. p \<noteq> []) (map trim (split 0x002C sample_raw))) =
     [[0x8C5A, 0x8089], [0x006F, 0x006E, 0x0069, 0x006F, 0x006E]] \<and>
   normalize_ingredients lowerBasicLatin sample_raw =
     [[0x8C5A, 0x8089], [0x006F, 0x006E, 0x0069, 0x006F, 0x006E]]"
proof -
  note inst = normalize_ingredients_splits_trims_lowers
    [where lc = lowerBasicLatin and raw = sample_raw]
  have h: "lowerBasicLatin [] = [] \<and> lowerBasicLatin [0x8C5A, 0x8089] = [0x8C5A, 0x8089] \<and>
    lowerBasicLatin [0x004F, 0x004E, 0x0049, 0x004F, 0x004E] =
      [0x006F, 0x006E, 0x0069, 0x006F, 0x006E]"
    by (simp add: sample_lower)
  from inst have "lowerBasicLatin [] = [] \<and> lowerBasicLatin [0x8C5A, 0x8089] = [0x8C5A, 0x8089] \<and>
    lowerBasicLatin [0x004F, 0x004E, 0x0049, 0x004F, 0x004E] =
      [0x006F, 0x006E, 0x0069, 0x006F, 0x006E] \<longrightarrow>
      normalize_ingredients lowerBasicLatin sample_raw =
        [[0x8C5A, 0x8089], [0x006F, 0x006E, 0x0069, 0x006F, 0x006E]] \<and>
      set (normalize_ingredients lowerBasicLatin sample_raw) =
        {[0x8C5A, 0x8089], [0x006F, 0x006E, 0x0069, 0x006F, 0x006E]}"
    by (elim conjE)
  with h have n: "normalize_ingredients lowerBasicLatin sample_raw =
        [[0x8C5A, 0x8089], [0x006F, 0x006E, 0x0069, 0x006F, 0x006E]]"
    by blast
  from inst [THEN conjunct1] sample_lower(1)
  have e: "normalize_ingredients lowerBasicLatin sample_raw =
        map lowerBasicLatin (filter (\<lambda>p. p \<noteq> []) (map trim (split 0x002C sample_raw)))"
    by (rule mp)
  have m: "map lowerBasicLatin (filter (\<lambda>p. p \<noteq> []) (map trim (split 0x002C sample_raw))) =
     [[0x8C5A, 0x8089], [0x006F, 0x006E, 0x0069, 0x006F, 0x006E]]"
    unfolding e [symmetric] by (rule n)
  from sample_lower sample_split sample_trim m n show ?thesis
    by (intro conjI)
qed

section \<open>The match score\<close>

lemma matchCount_filter:
  "matchCount lc Q r =
     length (filter (\<lambda>ing. \<exists>t \<in> set Q. \<exists>pre suf. lc ing = pre @ t @ suf) (ingredients r))"
  unfolding matchCount_def list_ex_iff includesString_iff ..

lemma matchCount_set_cong:
  assumes "set Q = set Q'"
  shows "matchCount lc Q r = matchCount lc Q' r"
  unfolding matchCount_filter assms ..

lemma length_filter_mono:
  "(\<And>x. x \<in> set xs \<Longrightarrow> P x \<Longrightarrow> R x) \<Longrightarrow> length (filter P xs) \<le> length (filter R xs)"
  by (induction xs) auto

text \<open>
  C1. The score of a recipe is the number of positions of its ingredient list whose
  entry, lower-cased, contains some query token as a contiguous substring. For a
  normalised query this is the number of entries that contain, both sides lower-cased,
  some non-empty trimmed piece of the text of the user, which is containment without
  regard to case. A position is counted once however many tokens it contains, so the
  score is at most the number of entries.
\<close>

theorem matchCount_counts_matching_entries:
  "matchCount lc Q r =
     card {i. i < length (ingredients r) \<and>
              (\<exists>t \<in> set Q. \<exists>pre suf. lc (ingredients r ! i) = pre @ t @ suf)} \<and>
   matchCount lc (normalize_ingredients lc raw) r =
     card {i. i < length (ingredients r) \<and>
              (\<exists>p \<in> set (split 0x002C raw). lc (trim p) \<noteq> [] \<and>
                 (\<exists>pre suf. lc (ingredients r ! i) = pre @ lc (trim p) @ suf))} \<and>
   matchCount lc Q r \<le> length (ingredients r)"
proof (intro conjI)
  show "matchCount lc Q r =
     card {i. i < length (ingredients r) \<and>
              (\<exists>t \<in> set Q. \<exists>pre suf. lc (ingredients r ! i) = pre @ t @ suf)}"
    unfolding matchCount_filter by (rule length_filter_conv_card)
  have "{i. i < length (ingredients r) \<and>
              (\<exists>t \<in> set (normalize_ingredients lc raw). \<exists>pre suf.
                 lc (ingredients r ! i) = pre @ t @ suf)} =
        {i. i < length (ingredients r) \<and>
              (\<exists>p \<in> set (split 0x002C raw). lc (trim p) \<noteq> [] \<and>
                 (\<exists>pre suf. lc (ingredients r ! i) = pre @ lc (trim p) @ suf))}"
    unfolding set_normalize_ingredients by blast
  then show "matchCount lc (normalize_ingredients lc raw) r =
     card {i. i < length (ingredients r) \<and>
              (\<exists>p \<in> set (split 0x002C raw). lc (trim p) \<noteq> [] \<and>
                 (\<exists>pre suf. lc (ingredients r ! i) = pre @ lc (trim p) @ suf))}"
    unfolding matchCount_filter by (simp only: length_filter_conv_card)
  show "matchCount lc Q r \<le> length (ingredients r)"
    unfolding matchCount_filter by (rule length_filter_le)
qed

text \<open>
  The text of the user says ONION and the recipe says Onion: the entry counts, and the
  score is 1. Both tokens of the query pig, pork occur in the first ingredient of the
  pork dish, and the score is 1.
\<close>

theorem matchCount_counts_matching_entries_witness:
  "matchCount lowerBasicLatin (normalize_ingredients lowerBasicLatin sample_raw) onion_gratin = 1 \<and>
   card {i. i < length (ingredients onion_gratin) \<and>
            (\<exists>p \<in> set (split 0x002C sample_raw). lowerBasicLatin (trim p) \<noteq> [] \<and>
               (\<exists>pre suf. lowerBasicLatin (ingredients onion_gratin ! i) =
                  pre @ lowerBasicLatin (trim p) @ suf))} = 1 \<and>
   card {i. i < length (ingredients pork_onion) \<and>
            (\<exists>t \<in> set pig_pork. \<exists>pre suf.
               lowerBasicLatin (ingredients pork_onion ! i) = pre @ t @ suf)} = 1 \<and>
   matchCount lowerBasicLatin pig_pork pork_onion \<le> 2"
proof -
  have a: "matchCount lowerBasicLatin (normalize_ingredients lowerBasicLatin sample_raw) onion_gratin = 1"
    unfolding sample_normalize by (simp add: matcher_defs sample_defs)
  have b: "matchCount lowerBasicLatin pig_pork pork_onion = 1"
    by (simp add: matcher_defs sample_defs)
  note t1 = matchCount_counts_matching_entries
    [where lc = lowerBasicLatin and raw = sample_raw and r = onion_gratin]
  note t2 = matchCount_counts_matching_entries
    [where lc = lowerBasicLatin and Q = pig_pork and r = pork_onion]
  from t1 [THEN conjunct2, THEN conjunct1] a
  have c: "card {i. i < length (ingredients onion_gratin) \<and>
            (\<exists>p \<in> set (split 0x002C sample_raw). lowerBasicLatin (trim p) \<noteq> [] \<and>
               (\<exists>pre suf. lowerBasicLatin (ingredients onion_gratin ! i) =
                  pre @ lowerBasicLatin (trim p) @ suf))} = 1"
    by simp
  from t2 [THEN conjunct1] b
  have d: "card {i. i < length (ingredients pork_onion) \<and>
            (\<exists>t \<in> set pig_pork. \<exists>pre suf.
               lowerBasicLatin (ingredients pork_onion ! i) = pre @ t @ suf)} = 1"
    by simp
  from b have e: "matchCount lowerBasicLatin pig_pork pork_onion \<le> 2" by simp
  from a c d e show ?thesis by (intro conjI)
qed

text \<open>
  Were the strings compared as they are, the entry Onion would not count for the text
  ONION, and the score would be 0.
\<close>

lemma matchCount_case_matters:
  "matchCount (\<lambda>s. s) (normalize_ingredients (\<lambda>s. s) sample_raw) onion_gratin = 0"
  by (simp add: matchCount_def normalize_ingredients_def trim_def isWhiteSpace_def sample_defs)

text \<open>
  C10. If every token of the query \<open>Q\<close> is also a token of \<open>Q'\<close>, no recipe scores less
  under \<open>Q'\<close> than under \<open>Q\<close>.
\<close>

theorem matchCount_mono:
  assumes "set Q \<subseteq> set Q'"
  shows "matchCount lc Q r \<le> matchCount lc Q' r"
  unfolding matchCount_filter
proof (rule length_filter_mono)
  fix ing
  assume "\<exists>t \<in> set Q. \<exists>pre suf. lc ing = pre @ t @ suf"
  with assms show "\<exists>t \<in> set Q'. \<exists>pre suf. lc ing = pre @ t @ suf" by blast
qed

text \<open>Adding potato to the query pork raises the score of the chicken dish from 0 to 1.\<close>

theorem matchCount_mono_witness:
  "set [[0x8C5A, 0x8089]] \<subseteq> set pork_potato \<and>
   matchCount lowerBasicLatin [[0x8C5A, 0x8089]] chicken_potato \<le> matchCount lowerBasicLatin pork_potato chicken_potato \<and>
   matchCount lowerBasicLatin [[0x8C5A, 0x8089]] chicken_potato = 0 \<and>
   matchCount lowerBasicLatin pork_potato chicken_potato = 1"
proof -
  have sub: "set [[0x8C5A, 0x8089]] \<subseteq> set pork_potato"
    by (simp add: pork_potato_def)
  have "matchCount lowerBasicLatin [[0x8C5A, 0x8089]] chicken_potato = 0"
    by (simp add: matcher_defs sample_defs)
  moreover have "matchCount lowerBasicLatin pork_potato chicken_potato = 1"
    by (simp add: matcher_defs sample_defs)
  ultimately show ?thesis
    using sub matchCount_mono [OF sub, where lc = lowerBasicLatin and r = chicken_potato] by simp
qed

section \<open>The sort and its first element\<close>

lemma insertBy_not_Nil: "insertBy f x ys \<noteq> []"
  by (cases ys) auto

lemma sortBy_Nil: "sortBy f [] = []"
  by (simp add: sortBy_def)

lemma sortBy_Cons: "sortBy f (x # xs) = insertBy f x (sortBy f xs)"
  by (simp add: sortBy_def)

lemma sortBy_eq_Nil: "sortBy f xs = [] \<longleftrightarrow> xs = []"
  by (cases xs) (simp_all add: sortBy_Nil sortBy_Cons insertBy_not_Nil)

text \<open>
  Sorted by descending score, the array starts with the element of greatest score that
  comes first in the unsorted array: everything before it there scores strictly less,
  everything after it at most as much.
\<close>

lemma sortBy_score_head:
  "sortBy (\<lambda>a b. int (score b) - int (score a)) xs = s # rest \<Longrightarrow>
     \<exists>pre suf. xs = pre @ s # suf \<and> (\<forall>y \<in> set pre. score y < score s) \<and>
       (\<forall>y \<in> set suf. score y \<le> score s)"
proof (induction xs arbitrary: s rest)
  case Nil
  then show ?case by (simp add: sortBy_Nil)
next
  case (Cons x xs)
  let ?f = "\<lambda>a b. int (score b) - int (score a)"
  show ?case
  proof (cases "sortBy ?f xs")
    case Nil
    then have "xs = []" by (simp add: sortBy_eq_Nil)
    with Cons.prems have "s = x" by (simp add: sortBy_Cons sortBy_Nil)
    with \<open>xs = []\<close> have "x # xs = [] @ s # []" by simp
    then show ?thesis by fastforce
  next
    case (Cons y ys)
    from Cons.IH[OF Cons] obtain pre suf where
      d: "xs = pre @ y # suf" "\<forall>z \<in> set pre. score z < score y"
         "\<forall>z \<in> set suf. score z \<le> score y"
      by blast
    show ?thesis
    proof (cases "score y \<le> score x")
      case True
      with Cons Cons.prems have "s = x" by (simp add: sortBy_Cons)
      have "x # xs = [] @ s # xs" using \<open>s = x\<close> by simp
      moreover have "\<forall>z \<in> set xs. score z \<le> score s" using d True \<open>s = x\<close> by fastforce
      ultimately show ?thesis by fastforce
    next
      case False
      with Cons Cons.prems have "s = y" by (simp add: sortBy_Cons)
      have "x # xs = (x # pre) @ s # suf" using d \<open>s = y\<close> by simp
      moreover have "\<forall>z \<in> set (x # pre). score z < score s" using d False \<open>s = y\<close> by auto
      moreover have "\<forall>z \<in> set suf. score z \<le> score s" using d \<open>s = y\<close> by auto
      ultimately show ?thesis by blast
    qed
  qed
qed

text \<open>
  The model of the sort is a stable sort by descending score: its result is a
  permutation of the array, in descending order of score, with the elements of equal
  score in their original order. It is the sort by the key minus the score of the
  library, which is the only list with these three properties.
\<close>

lemma mset_insertBy: "mset (insertBy f x ys) = add_mset x (mset ys)"
  by (induction ys) auto

lemma mset_sortBy: "mset (sortBy f xs) = mset xs"
  by (induction xs) (simp_all add: sortBy_Nil sortBy_Cons mset_insertBy)

lemma set_insertBy: "set (insertBy f x ys) = insert x (set ys)"
  by (induction ys) auto

lemma sorted_insertBy:
  "sorted_wrt (\<lambda>a b. score b \<le> score a) ys \<Longrightarrow>
     sorted_wrt (\<lambda>a b. score b \<le> score a) (insertBy (\<lambda>a b. int (score b) - int (score a)) x ys)"
proof (induction ys)
  case Nil
  show ?case by simp
next
  case (Cons y ys)
  show ?case
  proof (cases "score y \<le> score x")
    case True
    with Cons.prems show ?thesis by fastforce
  next
    case False
    with Cons show ?thesis by (auto simp: set_insertBy)
  qed
qed

lemma sorted_sortBy:
  "sorted_wrt (\<lambda>a b. score b \<le> score a) (sortBy (\<lambda>a b. int (score b) - int (score a)) xs)"
  by (induction xs) (simp_all add: sortBy_Nil sortBy_Cons sorted_insertBy)

lemma filter_insertBy:
  "filter (\<lambda>y. score y = k) (insertBy (\<lambda>a b. int (score b) - int (score a)) x ys) =
     filter (\<lambda>y. score y = k) (x # ys)"
  by (induction ys) auto

lemma stable_sortBy:
  "filter (\<lambda>y. score y = k) (sortBy (\<lambda>a b. int (score b) - int (score a)) xs) =
     filter (\<lambda>y. score y = k) xs"
  by (induction xs) (simp_all add: sortBy_Nil sortBy_Cons filter_insertBy)

lemma sortBy_eq_sort_key:
  "sortBy (\<lambda>a b. int (score b) - int (score a)) xs = sort_key (\<lambda>s. - int (score s)) xs"
proof (rule properties_for_sort_key [symmetric])
  let ?ys = "sortBy (\<lambda>a b. int (score b) - int (score a)) xs"
  show "mset ?ys = mset xs" by (rule mset_sortBy)
  show "sorted (map (\<lambda>s. - int (score s)) ?ys)"
    using sorted_sortBy[of xs] by (simp add: sorted_map)
  fix k
  have e: "(\<lambda>x. - int (score k) = - int (score x)) = (\<lambda>y. score y = score k)" by auto
  show "filter (\<lambda>x. - int (score k) = - int (score x)) ?ys =
        filter (\<lambda>x. - int (score k) = - int (score x)) xs"
    unfolding e by (rule stable_sortBy)
qed

section \<open>The best match of a category\<close>

lemma filter_eq_decomp:
  "filter P xs = ys @ z # zs \<Longrightarrow>
     \<exists>pre suf. xs = pre @ z # suf \<and> filter P pre = ys \<and> filter P suf = zs \<and> P z"
proof (induction xs arbitrary: ys)
  case Nil
  then show ?case by simp
next
  case (Cons x xs)
  show ?case
  proof (cases "P x")
    case False
    with Cons.prems have "filter P xs = ys @ z # zs" by simp
    from Cons.IH[OF this] obtain pre suf where
      "xs = pre @ z # suf" "filter P pre = ys" "filter P suf = zs" "P z" by blast
    with False
    have "x # xs = (x # pre) @ z # suf \<and> filter P (x # pre) = ys \<and> filter P suf = zs \<and> P z"
      by simp
    then show ?thesis by blast
  next
    case True
    show ?thesis
    proof (cases ys)
      case Nil
      with True Cons.prems have "x = z" "filter P xs = zs" by simp_all
      with True have "x # xs = [] @ z # xs \<and> filter P [] = [] \<and> filter P xs = zs \<and> P z"
        by simp
      with Nil show ?thesis by blast
    next
      case (Cons y ys')
      with True Cons.prems have "x = y" "filter P xs = ys' @ z # zs" by simp_all
      from Cons.IH[OF this(2)] obtain pre suf where
        "xs = pre @ z # suf" "filter P pre = ys'" "filter P suf = zs" "P z" by blast
      with True \<open>x = y\<close> Cons
      have "x # xs = (x # pre) @ z # suf \<and> filter P (x # pre) = ys \<and> filter P suf = zs \<and> P z"
        by simp
      then show ?thesis by blast
    qed
  qed
qed

lemma findBestMatch_None:
  "findBestMatch lc pool Q c = None \<longleftrightarrow> (\<forall>r \<in> set pool. category r \<noteq> c)"
proof -
  let ?sorted = "sortBy (\<lambda>a b. int (score b) - int (score a))
     (map (\<lambda>r. \<lparr>recipe = r, score = matchCount lc Q r\<rparr>) (filter (\<lambda>r. category r = c) pool))"
  have "findBestMatch lc pool Q c = None \<longleftrightarrow> ?sorted = []"
    by (simp add: findBestMatch_def split: list.split)
  also have "\<dots> \<longleftrightarrow> filter (\<lambda>r. category r = c) pool = []"
    by (simp add: sortBy_eq_Nil)
  also have "\<dots> \<longleftrightarrow> (\<forall>r \<in> set pool. category r \<noteq> c)"
    by (simp add: filter_empty_conv)
  finally show ?thesis .
qed

lemma findBestMatch_Some:
  assumes "findBestMatch lc pool Q c = Some r"
  shows "\<exists>pre suf. pool = pre @ r # suf \<and> category r = c \<and>
           (\<forall>r' \<in> set pre. category r' = c \<longrightarrow> matchCount lc Q r' < matchCount lc Q r) \<and>
           (\<forall>r' \<in> set suf. category r' = c \<longrightarrow> matchCount lc Q r' \<le> matchCount lc Q r)"
proof -
  define mk where "mk = (\<lambda>r. \<lparr>recipe = r, score = matchCount lc Q r\<rparr>)"
  define cands where "cands = filter (\<lambda>r. category r = c) pool"
  define srtd where "srtd = sortBy (\<lambda>a b. int (score b) - int (score a)) (map mk cands)"
  have mk_simps: "\<And>x. recipe (mk x) = x" "\<And>x. score (mk x) = matchCount lc Q x"
    by (simp_all add: mk_def)
  have fbm: "findBestMatch lc pool Q c = (case srtd of [] \<Rightarrow> None | s # _ \<Rightarrow> Some (recipe s))"
    by (simp add: findBestMatch_def srtd_def cands_def mk_def)
  from assms obtain s rest where srt: "srtd = s # rest" and rs: "recipe s = r"
    unfolding fbm by (cases srtd) auto
  have "\<exists>spre ssuf. map mk cands = spre @ s # ssuf \<and>
          (\<forall>y \<in> set spre. score y < score s) \<and> (\<forall>y \<in> set ssuf. score y \<le> score s)"
    by (rule sortBy_score_head[OF srt[unfolded srtd_def]])
  then obtain spre ssuf where
    d: "map mk cands = spre @ s # ssuf"
    and lt: "\<forall>y \<in> set spre. score y < score s"
    and le: "\<forall>y \<in> set ssuf. score y \<le> score s" by (elim exE conjE)
  from iffD1[OF map_eq_append_conv d] obtain cpre crest where
    c1: "cands = cpre @ crest" "spre = map mk cpre" "s # ssuf = map mk crest"
    by (elim exE conjE)
  from iffD1[OF Cons_eq_map_conv c1(3)] obtain x csuf where
    c2: "crest = x # csuf" "s = mk x" "ssuf = map mk csuf"
    by (elim exE conjE)
  from c2(2) rs have xr: "x = r" using mk_simps(1) by metis
  from c2(2) xr have sc: "score s = matchCount lc Q r" using mk_simps(2) by metis
  have "filter (\<lambda>r. category r = c) pool = cpre @ x # csuf"
    using c1(1) c2(1) by (simp add: cands_def)
  from filter_eq_decomp[OF this] obtain pre suf where
    p: "pool = pre @ x # suf" "filter (\<lambda>r. category r = c) pre = cpre"
       "filter (\<lambda>r. category r = c) suf = csuf" "category x = c" by blast
  have "\<forall>r' \<in> set pre. category r' = c \<longrightarrow> matchCount lc Q r' < matchCount lc Q r"
  proof (intro ballI impI)
    fix r' assume "r' \<in> set pre" "category r' = c"
    then have "r' \<in> set cpre" using p(2) by auto
    then have "mk r' \<in> set spre" using c1(2) by auto
    with lt have "score (mk r') < score s" by blast
    then show "matchCount lc Q r' < matchCount lc Q r" by (simp add: mk_simps sc)
  qed
  moreover have "\<forall>r' \<in> set suf. category r' = c \<longrightarrow> matchCount lc Q r' \<le> matchCount lc Q r"
  proof (intro ballI impI)
    fix r' assume "r' \<in> set suf" "category r' = c"
    then have "r' \<in> set csuf" using p(3) by auto
    then have "mk r' \<in> set ssuf" using c2(3) by auto
    with le have "score (mk r') \<le> score s" by blast
    then show "matchCount lc Q r' \<le> matchCount lc Q r" by (simp add: mk_simps sc)
  qed
  ultimately show ?thesis using p(1,4) xr by blast
qed

lemma findBestMatch_set_cong:
  assumes "set Q = set Q'"
  shows "findBestMatch lc pool Q c = findBestMatch lc pool Q' c"
proof -
  have "matchCount lc Q = matchCount lc Q'"
  proof
    fix r show "matchCount lc Q r = matchCount lc Q' r" using assms by (rule matchCount_set_cong)
  qed
  then show ?thesis by (simp only: findBestMatch_def)
qed

lemma findBestMatch_member:
  assumes "findBestMatch lc pool Q c = Some r"
  shows "r \<in> set pool \<and> category r = c"
proof -
  from findBestMatch_Some[OF assms] obtain pre suf where "pool = pre @ r # suf" "category r = c"
    by (elim exE conjE)
  then show ?thesis by simp
qed

lemma findBestMatch_maximal:
  assumes "findBestMatch lc pool Q c = Some r" "r' \<in> set pool" "category r' = c"
  shows "matchCount lc Q r' \<le> matchCount lc Q r"
proof -
  from findBestMatch_Some[OF assms(1)] obtain pre suf where
    p: "pool = pre @ r # suf"
    and lt: "\<forall>x \<in> set pre. category x = c \<longrightarrow> matchCount lc Q x < matchCount lc Q r"
    and le: "\<forall>x \<in> set suf. category x = c \<longrightarrow> matchCount lc Q x \<le> matchCount lc Q r"
    by (elim exE conjE)
  from assms(2) p consider "r' \<in> set pre" | "r' = r" | "r' \<in> set suf" by auto
  then show ?thesis
  proof cases
    case 1
    with lt assms(3) have "matchCount lc Q r' < matchCount lc Q r" by blast
    then show ?thesis by simp
  next
    case 2
    then show ?thesis by simp
  next
    case 3
    with le assms(3) show ?thesis by blast
  qed
qed

section \<open>The sample data, evaluated\<close>

lemma sample_scores:
  "matchCount lowerBasicLatin pork_potato pork_onion = 1"
  "matchCount lowerBasicLatin pork_potato chicken_potato = 1"
  "matchCount lowerBasicLatin pig_pork pork_onion = 1"
  "matchCount lowerBasicLatin pig_pork chicken_potato = 0"
  "matchCount lowerBasicLatin pork_potato miso_soup = 0"
  by (simp_all add: matcher_defs sample_defs)

lemma sample_plans:
  "selectMealPlan lowerBasicLatin [pork_onion, chicken_potato] pork_potato =
     \<lparr>mainDish = Some pork_onion, sideDish = None, soup = None\<rparr>"
  "selectMealPlan lowerBasicLatin [chicken_potato, pork_onion] pork_potato =
     \<lparr>mainDish = Some chicken_potato, sideDish = None, soup = None\<rparr>"
  "selectMealPlan lowerBasicLatin [chicken_potato, pork_onion] pig_pork =
     \<lparr>mainDish = Some pork_onion, sideDish = None, soup = None\<rparr>"
  "selectMealPlan lowerBasicLatin [pudding, miso_soup] pork_potato =
     \<lparr>mainDish = None, sideDish = None, soup = Some miso_soup\<rparr>"
  "selectMealPlan lowerBasicLatin [pudding] pork_potato = \<lparr>mainDish = None, sideDish = None, soup = None\<rparr>"
  by (simp_all add: matcher_defs sample_defs)

section \<open>The meal plan\<close>

lemma slots:
  "mainDish (selectMealPlan lc pool Q) = findBestMatch lc pool Q label_mainDish"
  "sideDish (selectMealPlan lc pool Q) = findBestMatch lc pool Q label_sideDish"
  "soup (selectMealPlan lc pool Q) = findBestMatch lc pool Q label_soup"
  by (simp_all add: selectMealPlan_def)

text \<open>
  C2. Whatever recipe a slot of the plan holds, no recipe of the pool with the category
  of that slot has a greater score. (This holds for every query, empty or not.)
\<close>

theorem selected_recipe_has_maximal_score:
  "(mainDish (selectMealPlan lc pool Q) = Some r \<longrightarrow>
      (\<forall>r' \<in> set pool. category r' = label_mainDish \<longrightarrow> matchCount lc Q r' \<le> matchCount lc Q r)) \<and>
   (sideDish (selectMealPlan lc pool Q) = Some r \<longrightarrow>
      (\<forall>r' \<in> set pool. category r' = label_sideDish \<longrightarrow> matchCount lc Q r' \<le> matchCount lc Q r)) \<and>
   (soup (selectMealPlan lc pool Q) = Some r \<longrightarrow>
      (\<forall>r' \<in> set pool. category r' = label_soup \<longrightarrow> matchCount lc Q r' \<le> matchCount lc Q r))"
  unfolding slots by (intro conjI impI ballI; erule (2) findBestMatch_maximal)

text \<open>
  In the pool chicken, pork and under the query pig, pork the pork dish is selected,
  and the chicken dish, of the same category, does not score more.
\<close>

theorem selected_recipe_has_maximal_score_witness:
  "mainDish (selectMealPlan lowerBasicLatin [chicken_potato, pork_onion] pig_pork) = Some pork_onion \<and>
   chicken_potato \<in> set [chicken_potato, pork_onion] \<and>
   category chicken_potato = label_mainDish \<and>
   matchCount lowerBasicLatin pig_pork chicken_potato \<le> matchCount lowerBasicLatin pig_pork pork_onion"
proof -
  have sel: "mainDish (selectMealPlan lowerBasicLatin [chicken_potato, pork_onion] pig_pork) = Some pork_onion"
    by (simp add: sample_plans)
  have cat: "category chicken_potato = label_mainDish"
    by (simp add: chicken_potato_def label_mainDish_def)
  from selected_recipe_has_maximal_score
    [where lc = lowerBasicLatin and pool = "[chicken_potato, pork_onion]" and Q = pig_pork and
      r = pork_onion] sel
  have "\<forall>r' \<in> set [chicken_potato, pork_onion].
          category r' = label_mainDish \<longrightarrow> matchCount lowerBasicLatin pig_pork r' \<le> matchCount lowerBasicLatin pig_pork pork_onion"
    by blast
  with cat have "matchCount lowerBasicLatin pig_pork chicken_potato \<le> matchCount lowerBasicLatin pig_pork pork_onion"
    by simp
  with sel cat show ?thesis by simp
qed

text \<open>
  C3. The recipe in a slot splits the pool in two: every recipe of the slot's category
  that comes before it scores strictly less, and every one that comes after it scores at
  most as much. So among the recipes that tie for the greatest score of a category, the
  one that comes first in the pool is selected.
\<close>

theorem tie_goes_to_earliest_in_pool:
  "\<forall>(slot, label) \<in> set [(mainDish, label_mainDish), (sideDish, label_sideDish), (soup, label_soup)].
     slot (selectMealPlan lc pool Q) = Some r \<longrightarrow>
       (\<exists>pre suf. pool = pre @ r # suf \<and>
          (\<forall>r' \<in> set pre. category r' = label \<longrightarrow> matchCount lc Q r' < matchCount lc Q r) \<and>
          (\<forall>r' \<in> set suf. category r' = label \<longrightarrow> matchCount lc Q r' \<le> matchCount lc Q r))"
proof -
  have "findBestMatch lc pool Q c = Some r \<longrightarrow>
       (\<exists>pre suf. pool = pre @ r # suf \<and>
          (\<forall>r' \<in> set pre. category r' = c \<longrightarrow> matchCount lc Q r' < matchCount lc Q r) \<and>
          (\<forall>r' \<in> set suf. category r' = c \<longrightarrow> matchCount lc Q r' \<le> matchCount lc Q r))" for c
  proof
    assume "findBestMatch lc pool Q c = Some r"
    from findBestMatch_Some[OF this] show "\<exists>pre suf. pool = pre @ r # suf \<and>
          (\<forall>r' \<in> set pre. category r' = c \<longrightarrow> matchCount lc Q r' < matchCount lc Q r) \<and>
          (\<forall>r' \<in> set suf. category r' = c \<longrightarrow> matchCount lc Q r' \<le> matchCount lc Q r)"
      by (elim exE conjE) (intro exI conjI; assumption)
  qed
  then show ?thesis by (simp add: slots)
qed

text \<open>
  The scenario of the specification: both main dishes score 1, and the pork dish, first
  in the pool, is selected.
\<close>

theorem tie_goes_to_earliest_in_pool_witness:
  "mainDish (selectMealPlan lowerBasicLatin [pork_onion, chicken_potato] pork_potato) = Some pork_onion \<and>
   matchCount lowerBasicLatin pork_potato chicken_potato = matchCount lowerBasicLatin pork_potato pork_onion \<and>
   (\<exists>pre suf. [pork_onion, chicken_potato] = pre @ pork_onion # suf \<and>
      (\<forall>r' \<in> set pre. category r' = label_mainDish \<longrightarrow>
         matchCount lowerBasicLatin pork_potato r' < matchCount lowerBasicLatin pork_potato pork_onion) \<and>
      (\<forall>r' \<in> set suf. category r' = label_mainDish \<longrightarrow>
         matchCount lowerBasicLatin pork_potato r' \<le> matchCount lowerBasicLatin pork_potato pork_onion))"
proof -
  have sel: "mainDish (selectMealPlan lowerBasicLatin [pork_onion, chicken_potato] pork_potato) = Some pork_onion"
    by (simp add: sample_plans)
  have tie: "matchCount lowerBasicLatin pork_potato chicken_potato = matchCount lowerBasicLatin pork_potato pork_onion"
    by (simp add: sample_scores)
  have "(mainDish, label_mainDish) \<in>
          set [(mainDish, label_mainDish), (sideDish, label_sideDish), (soup, label_soup)]"
    by simp
  with tie_goes_to_earliest_in_pool
    [where lc = lowerBasicLatin and pool = "[pork_onion, chicken_potato]" and Q = pork_potato and
      r = pork_onion]
  have "mainDish (selectMealPlan lowerBasicLatin [pork_onion, chicken_potato] pork_potato) = Some pork_onion \<longrightarrow>
   (\<exists>pre suf. [pork_onion, chicken_potato] = pre @ pork_onion # suf \<and>
      (\<forall>r' \<in> set pre. category r' = label_mainDish \<longrightarrow>
         matchCount lowerBasicLatin pork_potato r' < matchCount lowerBasicLatin pork_potato pork_onion) \<and>
      (\<forall>r' \<in> set suf. category r' = label_mainDish \<longrightarrow>
         matchCount lowerBasicLatin pork_potato r' \<le> matchCount lowerBasicLatin pork_potato pork_onion))"
    by fast
  with sel tie show ?thesis by (intro conjI) (assumption, assumption, erule mp, assumption)
qed

text \<open>With the pool in the other order, the chicken dish is selected.\<close>

lemma tie_other_order:
  "mainDish (selectMealPlan lowerBasicLatin [chicken_potato, pork_onion] pork_potato) = Some chicken_potato"
  by (simp add: sample_plans)

text \<open>
  C9. A recipe in a slot is a member of the pool and its category is the label of that
  slot, code unit for code unit; a recipe of any other category is in no slot.
\<close>

theorem selected_recipe_in_pool_with_slot_label:
  "(\<forall>(slot, label) \<in> set [(mainDish, [0x4E3B, 0x83DC]), (sideDish, [0x526F, 0x83DC]),
                          (soup, [0x6C41, 0x7269])].
      slot (selectMealPlan lc pool Q) = Some r \<longrightarrow> r \<in> set pool \<and> category r = label) \<and>
   (category r \<notin> {[0x4E3B, 0x83DC], [0x526F, 0x83DC], [0x6C41, 0x7269]} \<longrightarrow>
      mainDish (selectMealPlan lc pool Q) \<noteq> Some r \<and> sideDish (selectMealPlan lc pool Q) \<noteq> Some r \<and>
      soup (selectMealPlan lc pool Q) \<noteq> Some r)"
proof -
  have m: "findBestMatch lc pool Q c = Some r \<longrightarrow> r \<in> set pool \<and> category r = c" for c
    using findBestMatch_member by blast
  have "mainDish (selectMealPlan lc pool Q) = Some r \<longrightarrow> r \<in> set pool \<and> category r = [0x4E3B, 0x83DC]"
    unfolding slots label_mainDish_def by (rule m)
  moreover
  have "sideDish (selectMealPlan lc pool Q) = Some r \<longrightarrow> r \<in> set pool \<and> category r = [0x526F, 0x83DC]"
    unfolding slots label_sideDish_def by (rule m)
  moreover
  have "soup (selectMealPlan lc pool Q) = Some r \<longrightarrow> r \<in> set pool \<and> category r = [0x6C41, 0x7269]"
    unfolding slots label_soup_def by (rule m)
  ultimately show ?thesis by auto
qed

text \<open>
  From the pool dessert, soup the soup is selected for the soup slot, and the dessert
  for none.
\<close>

theorem selected_recipe_in_pool_with_slot_label_witness:
  "soup (selectMealPlan lowerBasicLatin [pudding, miso_soup] pork_potato) = Some miso_soup \<and>
   miso_soup \<in> set [pudding, miso_soup] \<and> category miso_soup = [0x6C41, 0x7269] \<and>
   category pudding \<notin> {[0x4E3B, 0x83DC], [0x526F, 0x83DC], [0x6C41, 0x7269]} \<and>
   mainDish (selectMealPlan lowerBasicLatin [pudding, miso_soup] pork_potato) \<noteq> Some pudding \<and>
   sideDish (selectMealPlan lowerBasicLatin [pudding, miso_soup] pork_potato) \<noteq> Some pudding \<and>
   soup (selectMealPlan lowerBasicLatin [pudding, miso_soup] pork_potato) \<noteq> Some pudding"
proof -
  have sel: "soup (selectMealPlan lowerBasicLatin [pudding, miso_soup] pork_potato) = Some miso_soup"
    by (simp add: sample_plans)
  have other: "category pudding \<notin> {[0x4E3B, 0x83DC], [0x526F, 0x83DC], [0x6C41, 0x7269]}"
    by (simp add: pudding_def)
  note a = selected_recipe_in_pool_with_slot_label
    [where lc = lowerBasicLatin and pool = "[pudding, miso_soup]" and Q = pork_potato and r = miso_soup]
  note b = selected_recipe_in_pool_with_slot_label
    [where lc = lowerBasicLatin and pool = "[pudding, miso_soup]" and Q = pork_potato and r = pudding]
  from a sel have "miso_soup \<in> set [pudding, miso_soup] \<and> category miso_soup = [0x6C41, 0x7269]"
    by simp
  moreover from b other
  have "mainDish (selectMealPlan lowerBasicLatin [pudding, miso_soup] pork_potato) \<noteq> Some pudding \<and>
        sideDish (selectMealPlan lowerBasicLatin [pudding, miso_soup] pork_potato) \<noteq> Some pudding \<and>
        soup (selectMealPlan lowerBasicLatin [pudding, miso_soup] pork_potato) \<noteq> Some pudding"
    by blast
  ultimately show ?thesis using sel other by blast
qed

text \<open>
  C8. The plan for a token list is the plan for the list without its duplicates, and
  repeating every token changes nothing either: a score depends only on which tokens
  occur in the query.
\<close>

theorem duplicate_tokens_do_not_change_plan:
  "selectMealPlan lc pool Q = selectMealPlan lc pool (remdups Q) \<and>
   selectMealPlan lc pool (Q @ Q) = selectMealPlan lc pool Q \<and>
   matchCount lc Q r = matchCount lc (remdups Q) r"
proof (intro conjI)
  have s: "set Q = set (remdups Q)" by simp
  show "selectMealPlan lc pool Q = selectMealPlan lc pool (remdups Q)"
    unfolding selectMealPlan_def by (simp only: findBestMatch_set_cong[OF s])
  have t: "set (Q @ Q) = set Q" by simp
  show "selectMealPlan lc pool (Q @ Q) = selectMealPlan lc pool Q"
    unfolding selectMealPlan_def by (simp only: findBestMatch_set_cong[OF t])
  show "matchCount lc Q r = matchCount lc (remdups Q) r"
    using s by (rule matchCount_set_cong)
qed

text \<open>The query pig, pork, given twice over, selects the pork dish as before.\<close>

theorem duplicate_tokens_do_not_change_plan_witness:
  "selectMealPlan lowerBasicLatin [chicken_potato, pork_onion] (pig_pork @ pig_pork) =
     \<lparr>mainDish = Some pork_onion, sideDish = None, soup = None\<rparr>"
  using duplicate_tokens_do_not_change_plan [where lc = lowerBasicLatin and pool = "[chicken_potato, pork_onion]" and Q = pig_pork]
  by (simp add: sample_plans)

section \<open>Outcomes of a request\<close>

text \<open>
  A request with at least one token, answered with at least one recipe and no error,
  ends with the plan of the matcher on the screen and no message.
\<close>

lemma suggestMeal_matched:
  assumes "normalize_ingredients lc raw \<noteq> []" "fetchError (store g) = None" "data (store g) = Some pool"
    "pool \<noteq> []"
  shows "suggestMeal lc store raw g s0 =
     s0\<lparr>loading := False, error := [], mealPlan := Some (selectMealPlan lc pool (normalize_ingredients lc raw)),
        queries := queries s0 @ [g]\<rparr>"
  using assms by (simp add: suggestMeal_def Let_def)

text \<open>
  C4. A slot of the plan is empty exactly when the pool has no recipe of the category of
  that slot; a category with candidates gets one of them whatever they score. A request
  that reaches the matcher shows its plan and no error message, also when every slot of
  the plan is empty. (The matcher is a total function, and this holds for every query.)
\<close>

theorem slot_absent_iff_no_candidate:
  "(mainDish (selectMealPlan lc pool Q) = None \<longleftrightarrow> (\<forall>r \<in> set pool. category r \<noteq> label_mainDish)) \<and>
   (sideDish (selectMealPlan lc pool Q) = None \<longleftrightarrow> (\<forall>r \<in> set pool. category r \<noteq> label_sideDish)) \<and>
   (soup (selectMealPlan lc pool Q) = None \<longleftrightarrow> (\<forall>r \<in> set pool. category r \<noteq> label_soup)) \<and>
   (normalize_ingredients lc raw \<noteq> [] \<and> fetchError (store g) = None \<and> data (store g) = Some pool \<and> pool \<noteq> [] \<longrightarrow>
      mealPlan (suggestMeal lc store raw g s0) = Some (selectMealPlan lc pool (normalize_ingredients lc raw)) \<and>
      error (suggestMeal lc store raw g s0) = [])"
proof (intro conjI impI)
  show "mainDish (selectMealPlan lc pool Q) = None \<longleftrightarrow> (\<forall>r \<in> set pool. category r \<noteq> label_mainDish)"
    unfolding slots by (rule findBestMatch_None)
  show "sideDish (selectMealPlan lc pool Q) = None \<longleftrightarrow> (\<forall>r \<in> set pool. category r \<noteq> label_sideDish)"
    unfolding slots by (rule findBestMatch_None)
  show "soup (selectMealPlan lc pool Q) = None \<longleftrightarrow> (\<forall>r \<in> set pool. category r \<noteq> label_soup)"
    unfolding slots by (rule findBestMatch_None)
next
  assume a: "normalize_ingredients lc raw \<noteq> [] \<and> fetchError (store g) = None \<and> data (store g) = Some pool \<and> pool \<noteq> []"
  then have e: "suggestMeal lc store raw g s0 =
     s0\<lparr>loading := False, error := [], mealPlan := Some (selectMealPlan lc pool (normalize_ingredients lc raw)),
        queries := queries s0 @ [g]\<rparr>"
    by (intro suggestMeal_matched) simp_all
  show "mealPlan (suggestMeal lc store raw g s0) = Some (selectMealPlan lc pool (normalize_ingredients lc raw))"
    by (simp add: e)
  show "error (suggestMeal lc store raw g s0) = []"
    by (simp add: e)
qed

text \<open>
  The soup scores 0 under the query pork, potato and is selected, the pool dessert, soup
  leaves the main dish empty, and a pool of desserts alone gives an empty plan with no
  error message.
\<close>

theorem slot_absent_iff_no_candidate_witness:
  "soup (selectMealPlan lowerBasicLatin [pudding, miso_soup] pork_potato) = Some miso_soup \<and>
   matchCount lowerBasicLatin pork_potato miso_soup = 0 \<and>
   mainDish (selectMealPlan lowerBasicLatin [pudding, miso_soup] pork_potato) = None \<and>
   category pudding \<noteq> label_mainDish \<and> category miso_soup \<noteq> label_mainDish \<and>
   mealPlan (suggestMeal lowerBasicLatin (answer [pudding]) sample_raw Washoku idle) =
     Some \<lparr>mainDish = None, sideDish = None, soup = None\<rparr> \<and>
   error (suggestMeal lowerBasicLatin (answer [pudding]) sample_raw Washoku idle) = []"
proof -
  have pre: "normalize_ingredients lowerBasicLatin sample_raw \<noteq> [] \<and> fetchError (answer [pudding] Washoku) = None \<and>
     data (answer [pudding] Washoku) = Some [pudding] \<and> [pudding] \<noteq> []"
    by (simp add: sample_normalize answer_def)
  have plan: "selectMealPlan lowerBasicLatin [pudding] (normalize_ingredients lowerBasicLatin sample_raw) =
     \<lparr>mainDish = None, sideDish = None, soup = None\<rparr>"
    by (simp add: matcher_defs sample_defs)
  have none: "mainDish (selectMealPlan lowerBasicLatin [pudding, miso_soup] pork_potato) = None"
    by (simp add: sample_plans)
  have some: "soup (selectMealPlan lowerBasicLatin [pudding, miso_soup] pork_potato) = Some miso_soup"
    by (simp add: sample_plans)
  note a = slot_absent_iff_no_candidate [where lc = lowerBasicLatin and pool = "[pudding, miso_soup]" and Q = pork_potato]
  note b = slot_absent_iff_no_candidate [where lc = lowerBasicLatin and pool = "[pudding]" and raw = sample_raw and
      store = "answer [pudding]" and g = Washoku and ?s0.0 = idle]
  from a none have "\<forall>r \<in> set [pudding, miso_soup]. category r \<noteq> label_mainDish" by blast
  then have "category pudding \<noteq> label_mainDish \<and> category miso_soup \<noteq> label_mainDish"
    by simp
  moreover from b pre plan
  have "mealPlan (suggestMeal lowerBasicLatin (answer [pudding]) sample_raw Washoku idle) =
          Some \<lparr>mainDish = None, sideDish = None, soup = None\<rparr> \<and>
        error (suggestMeal lowerBasicLatin (answer [pudding]) sample_raw Washoku idle) = []"
    by simp
  ultimately show ?thesis using none some by (simp add: sample_scores)
qed

text \<open>
  C6. When the text gives no token, the request ends with the message that asks for
  ingredients, no plan, and no query sent to the store; the store has no influence on
  the outcome.
\<close>

theorem empty_query_aborts_before_fetch:
  assumes "normalize_ingredients lc raw = []"
  shows "suggestMeal lc store raw g s0 =
           s0\<lparr>loading := False, error := msg_enter_ingredients, mealPlan := None\<rparr> \<and>
         queries (suggestMeal lc store raw g s0) = queries s0 \<and>
         mealPlan (suggestMeal lc store raw g s0) = None \<and>
         error (suggestMeal lc store raw g s0) = msg_enter_ingredients \<and>
         suggestMeal lc store' raw g s0 = suggestMeal lc store raw g s0"
  using assms by (simp add: suggestMeal_def Let_def)

text \<open>The blank text, a space, a comma and a space, gives no token.\<close>

theorem empty_query_aborts_before_fetch_witness:
  "normalize_ingredients lowerBasicLatin blank_raw = [] \<and>
   suggestMeal lowerBasicLatin (answer [pork_onion]) blank_raw Washoku idle =
     \<lparr>loading = False, mealPlan = None, error = msg_enter_ingredients, queries = [],
      console = []\<rparr>"
proof -
  have e: "normalize_ingredients lowerBasicLatin blank_raw = []" by (simp add: sample_normalize)
  from e empty_query_aborts_before_fetch
    [where lc = lowerBasicLatin and raw = blank_raw and store = "answer [pork_onion]" and g = Washoku and ?s0.0 = idle]
  have "suggestMeal lowerBasicLatin (answer [pork_onion]) blank_raw Washoku idle =
          idle\<lparr>loading := False, error := msg_enter_ingredients, mealPlan := None\<rparr>"
    by blast
  then show ?thesis using e by (simp add: idle_def)
qed

text \<open>
  C7. When the store is asked (there is at least one token) and answers without error
  with no rows, an empty array or \<^verbatim>\<open>null\<close>, the request ends with the message that
  no recipe was found and with no plan: \<^verbatim>\<open>findBestMatch\<close> is not reached.
\<close>

theorem empty_pool_aborts_without_matching:
  assumes "normalize_ingredients lc raw \<noteq> []" "fetchError (store g) = None"
    "data (store g) = Some [] \<or> data (store g) = None"
  shows "suggestMeal lc store raw g s0 =
           s0\<lparr>loading := False, error := msg_no_recipes, mealPlan := None,
              queries := queries s0 @ [g]\<rparr> \<and>
         mealPlan (suggestMeal lc store raw g s0) = None \<and>
         error (suggestMeal lc store raw g s0) = msg_no_recipes"
  using assms by (auto simp add: suggestMeal_def Let_def)

text \<open>The example text of the specification against a store with no rows.\<close>

theorem empty_pool_aborts_without_matching_witness:
  "normalize_ingredients lowerBasicLatin sample_raw \<noteq> [] \<and> fetchError (answer [] Washoku) = None \<and>
   data (answer [] Washoku) = Some [] \<and>
   suggestMeal lowerBasicLatin (answer []) sample_raw Washoku idle =
     \<lparr>loading = False, mealPlan = None, error = msg_no_recipes, queries = [Washoku],
      console = []\<rparr>"
proof -
  have a: "normalize_ingredients lowerBasicLatin sample_raw \<noteq> []" by (simp add: sample_normalize)
  have b: "fetchError (answer [] Washoku) = None" by (simp add: answer_def)
  have c: "data (answer [] Washoku) = Some []" by (simp add: answer_def)
  then have c': "data (answer [] Washoku) = Some [] \<or> data (answer [] Washoku) = None" by simp
  from a b c' empty_pool_aborts_without_matching
    [where lc = lowerBasicLatin and raw = sample_raw and store = "answer []" and g = Washoku and ?s0.0 = idle]
  have "suggestMeal lowerBasicLatin (answer []) sample_raw Washoku idle =
          idle\<lparr>loading := False, error := msg_no_recipes, mealPlan := None,
               queries := queries idle @ [Washoku]\<rparr>"
    by blast
  then show ?thesis using a b c by (simp add: idle_def)
qed

text \<open>The same against a store that answers \<^verbatim>\<open>null\<close>.\<close>

lemma null_rows_abort:
  "suggestMeal lowerBasicLatin no_rows sample_raw Washoku idle =
     \<lparr>loading = False, mealPlan = None, error = msg_no_recipes, queries = [Washoku],
      console = []\<rparr>"
  by (simp add: suggestMeal_def Let_def sample_normalize no_rows_def idle_def)

end
